theory Spec2Isabelle
  imports Complex_Main
begin

section \<open>Python values used by the accounting core\<close>

text \<open>
  Python \<open>float\<close> values (money amounts, timestamps in seconds, durations in
  milliseconds) are idealised as exact real numbers: \<open>+\<close>, \<open>-\<close>, \<open>*\<close> and \<open>/\<close> are
  the exact operations, without the rounding of IEEE doubles. Python \<open>int\<close> is \<open>int\<close>.

  Objects that the code mutates in place and hands out by reference (the turn objects of
  a tracker, the sessions of the registry) live in an explicit store: a list of objects
  indexed by address. Allocation appends to the store, so the address of a new object is
  the length of the store before the allocation.
\<close>

type_synonym addr = nat

text \<open>
  Truthiness of an \<open>Optional[float]\<close> as tested by \<open>if x:\<close> and \<open>x and y\<close>:
  \<open>None\<close> is false, and so is the float \<open>0.0\<close>.
\<close>

definition truthy :: "real option \<Rightarrow> bool" where
  "truthy v = (case v of None \<Rightarrow> False | Some x \<Rightarrow> x \<noteq> 0)"

text \<open>Values of dictionaries returned to callers and of structured log fields.\<close>

datatype pyval =
    PyNone
  | PyBool bool
  | PyInt int
  | PyFloat real
  | PyStr string
  | PyDict "(string \<times> pyval) list"

text \<open>\<open>d[k]\<close> on a value: defined only on a dictionary that has the key.\<close>

fun subscript :: "pyval \<Rightarrow> string \<Rightarrow> pyval option" where
  "subscript (PyDict kvs) k = map_of kvs k"
| "subscript _ k = None"

text \<open>
  \<open>round(x, n)\<close> on a float: the nearest multiple of \<open>10^-n\<close>, ties going to the even
  one.
\<close>

definition round_half_even :: "real \<Rightarrow> int" where
  "round_half_even x =
     (let f = \<lfloor>x\<rfloor>; d = x - of_int f
      in if d < 1 / 2 then f
         else if 1 / 2 < d then f + 1
         else if even f then f else f + 1)"

definition py_round :: "real \<Rightarrow> nat \<Rightarrow> real" where
  "py_round x n = of_int (round_half_even (x * 10 ^ n)) / 10 ^ n"

text \<open>One call of the structured logger: level, event name, keyword fields.\<close>

datatype log_event = LogEvent string string "(string \<times> pyval) list"


section \<open>cost\_tracker.py\<close>

record TurnCost =
  tc_turn_id :: int
  stt_cost :: real
  llm_input_cost :: real
  llm_output_cost :: real
  tts_cost :: real
  timestamp :: real

text \<open>\<open>TurnCost(turn_id=i)\<close>; the default timestamp reads the clock (\<open>now\<close>).\<close>

definition new_TurnCost :: "int \<Rightarrow> real \<Rightarrow> TurnCost" where
  "new_TurnCost i now =
     \<lparr>tc_turn_id = i, stt_cost = 0, llm_input_cost = 0, llm_output_cost = 0,
      tts_cost = 0, timestamp = now\<rparr>"

definition llm_cost :: "TurnCost \<Rightarrow> real" where
  "llm_cost t = llm_input_cost t + llm_output_cost t"

definition turn_total :: "TurnCost \<Rightarrow> real" where
  "turn_total t = stt_cost t + llm_cost t + tts_cost t"

definition SONIOX_COST_PER_MINUTE :: real where
  "SONIOX_COST_PER_MINUTE = 0.002"

definition GROQ_INPUT_COST_PER_MILLION :: real where
  "GROQ_INPUT_COST_PER_MILLION = 0.59"

definition GROQ_OUTPUT_COST_PER_MILLION :: real where
  "GROQ_OUTPUT_COST_PER_MILLION = 0.79"

definition ELEVENLABS_COST_PER_1K_CHARS :: real where
  "ELEVENLABS_COST_PER_1K_CHARS = 0.24"

text \<open>
  A \<open>CostTracker\<close>: \<open>c_objects\<close> is the store of the \<open>TurnCost\<close> objects it has
  created; \<open>turns\<close> and \<open>_current_turn\<close> hold references into it.
\<close>

record CostTracker =
  c_session_id :: string
  c_objects :: "TurnCost list"
  c_turns :: "addr list"
  c_current_turn :: addr
  c_turn_counter :: int

definition CostTracker_init :: "string \<Rightarrow> real \<Rightarrow> CostTracker" where
  "CostTracker_init sid now =
     \<lparr>c_session_id = sid, c_objects = [new_TurnCost 0 now], c_turns = [],
      c_current_turn = 0, c_turn_counter = 0\<rparr>"

text \<open>Dereferencing: the open turn and the finalized turns, as objects.\<close>

definition cost_current :: "CostTracker \<Rightarrow> TurnCost" where
  "cost_current tr = c_objects tr ! c_current_turn tr"

definition cost_history :: "CostTracker \<Rightarrow> TurnCost list" where
  "cost_history tr = map (\<lambda>a. c_objects tr ! a) (c_turns tr)"

text \<open>In-place update of the object \<open>_current_turn\<close> refers to.\<close>

definition cost_update_current :: "(TurnCost \<Rightarrow> TurnCost) \<Rightarrow> CostTracker \<Rightarrow> CostTracker" where
  "cost_update_current f tr =
     tr\<lparr>c_objects := (c_objects tr)[c_current_turn tr := f (cost_current tr)]\<rparr>"

definition add_stt_cost :: "real \<Rightarrow> CostTracker \<Rightarrow> CostTracker" where
  "add_stt_cost audio_duration_seconds tr =
     (let minutes = audio_duration_seconds / 60
      in cost_update_current
           (\<lambda>t. t\<lparr>stt_cost := stt_cost t + minutes * SONIOX_COST_PER_MINUTE\<rparr>) tr)"

definition add_llm_cost :: "int \<Rightarrow> int \<Rightarrow> CostTracker \<Rightarrow> CostTracker" where
  "add_llm_cost input_tokens output_tokens tr =
     cost_update_current
       (\<lambda>t. t\<lparr>llm_output_cost := llm_output_cost t
                 + (of_int output_tokens / 1000000) * GROQ_OUTPUT_COST_PER_MILLION\<rparr>)
       (cost_update_current
          (\<lambda>t. t\<lparr>llm_input_cost := llm_input_cost t
                    + (of_int input_tokens / 1000000) * GROQ_INPUT_COST_PER_MILLION\<rparr>) tr)"

definition add_tts_cost :: "int \<Rightarrow> CostTracker \<Rightarrow> CostTracker" where
  "add_tts_cost characters tr =
     cost_update_current
       (\<lambda>t. t\<lparr>tts_cost := tts_cost t
                 + (of_int characters / 1000) * ELEVENLABS_COST_PER_1K_CHARS\<rparr>) tr"

text \<open>
  \<open>finish_turn\<close> returns the reference to the completed turn and the updated tracker;
  \<open>now\<close> is the clock reading taken by the constructor of the new open turn.
\<close>

definition cost_finish_turn :: "real \<Rightarrow> CostTracker \<Rightarrow> addr \<times> CostTracker" where
  "cost_finish_turn now tr =
     (let completed_turn = c_current_turn tr;
          turns' = c_turns tr @ [completed_turn];
          counter' = c_turn_counter tr + 1
      in (completed_turn,
          tr\<lparr>c_turns := turns',
             c_turn_counter := counter',
             c_current_turn := length (c_objects tr),
             c_objects := c_objects tr @ [new_TurnCost counter' now]\<rparr>))"

definition total_stt_cost :: "CostTracker \<Rightarrow> real" where
  "total_stt_cost tr = sum_list (map stt_cost (cost_history tr)) + stt_cost (cost_current tr)"

definition total_llm_cost :: "CostTracker \<Rightarrow> real" where
  "total_llm_cost tr = sum_list (map llm_cost (cost_history tr)) + llm_cost (cost_current tr)"

definition total_tts_cost :: "CostTracker \<Rightarrow> real" where
  "total_tts_cost tr = sum_list (map tts_cost (cost_history tr)) + tts_cost (cost_current tr)"

definition total_cost :: "CostTracker \<Rightarrow> real" where
  "total_cost tr = total_stt_cost tr + total_llm_cost tr + total_tts_cost tr"

definition cost_turn_count :: "CostTracker \<Rightarrow> int" where
  "cost_turn_count tr = int (length (c_turns tr))"

definition average_cost_per_turn :: "CostTracker \<Rightarrow> real" where
  "average_cost_per_turn tr =
     (if c_turns tr = [] then 0 else total_cost tr / real (length (c_turns tr)))"

text \<open>The operations a driver can apply to a cost tracker, and a run of them.\<close>

datatype cost_op =
    AddStt real
  | AddLlm int int
  | AddTts int
  | FinishCost real

fun cost_step :: "cost_op \<Rightarrow> CostTracker \<Rightarrow> CostTracker" where
  "cost_step (AddStt d) tr = add_stt_cost d tr"
| "cost_step (AddLlm inp outp) tr = add_llm_cost inp outp tr"
| "cost_step (AddTts c) tr = add_tts_cost c tr"
| "cost_step (FinishCost now) tr = snd (cost_finish_turn now tr)"

definition cost_run :: "cost_op list \<Rightarrow> CostTracker \<Rightarrow> CostTracker" where
  "cost_run ops tr = fold cost_step ops tr"

text \<open>
  What the specification calls the average over the history only: the sum of the totals
  of the finalized turns divided by their number.
\<close>

definition spec_history_average :: "CostTracker \<Rightarrow> real" where
  "spec_history_average tr =
     (if c_turns tr = [] then 0
      else sum_list (map turn_total (cost_history tr)) / real (length (c_turns tr)))"



section \<open>latency\_tracker.py\<close>

record StageLatency =
  stage :: string
  start_time :: "real option"
  first_result_time :: "real option"
  end_time :: "real option"

definition new_StageLatency :: "string \<Rightarrow> StageLatency" where
  "new_StageLatency name =
     \<lparr>stage = name, start_time = None, first_result_time = None, end_time = None\<rparr>"

text \<open>
  The guards are the source's \<open>if self.start_time and self.first_result_time\<close>: a
  truthiness test of both fields. Behind a passed guard both fields hold a float.
\<close>

definition time_to_first_result :: "StageLatency \<Rightarrow> real option" where
  "time_to_first_result s =
     (if truthy (start_time s) \<and> truthy (first_result_time s)
      then Some ((the (first_result_time s) - the (start_time s)) * 1000)
      else None)"

definition total_duration :: "StageLatency \<Rightarrow> real option" where
  "total_duration s =
     (if truthy (start_time s) \<and> truthy (end_time s)
      then Some ((the (end_time s) - the (start_time s)) * 1000)
      else None)"

record TurnLatency =
  tl_turn_id :: int
  turn_start_time :: real
  turn_end_time :: "real option"
  stt :: StageLatency
  llm :: StageLatency
  tool :: StageLatency
  tts :: StageLatency

text \<open>\<open>TurnLatency(turn_id=i)\<close>; the default start time reads the clock (\<open>now\<close>).\<close>

definition new_TurnLatency :: "int \<Rightarrow> real \<Rightarrow> TurnLatency" where
  "new_TurnLatency i now =
     \<lparr>tl_turn_id = i, turn_start_time = now, turn_end_time = None,
      stt = new_StageLatency ''stt'', llm = new_StageLatency ''llm'',
      tool = new_StageLatency ''tool'', tts = new_StageLatency ''tts''\<rparr>"

definition end_to_end_latency :: "TurnLatency \<Rightarrow> real option" where
  "end_to_end_latency t =
     (if truthy (start_time (stt t)) \<and> truthy (first_result_time (tts t))
      then Some ((the (first_result_time (tts t)) - the (start_time (stt t))) * 1000)
      else None)"

definition total_turn_duration :: "TurnLatency \<Rightarrow> real option" where
  "total_turn_duration t =
     (if truthy (turn_end_time t)
      then Some ((the (turn_end_time t) - turn_start_time t) * 1000)
      else None)"

text \<open>
  A \<open>LatencyTracker\<close>: \<open>l_objects\<close> is the store of the \<open>TurnLatency\<close> objects it has
  created, \<open>l_log\<close> the calls it has made to the module's logger, oldest first.
\<close>

record LatencyTracker =
  l_session_id :: string
  l_objects :: "TurnLatency list"
  l_turns :: "addr list"
  l_current_turn :: addr
  l_turn_counter :: int
  l_log :: "log_event list"

definition LatencyTracker_init :: "string \<Rightarrow> real \<Rightarrow> LatencyTracker" where
  "LatencyTracker_init sid now =
     \<lparr>l_session_id = sid, l_objects = [new_TurnLatency 0 now], l_turns = [],
      l_current_turn = 0, l_turn_counter = 0, l_log = []\<rparr>"

definition lat_current :: "LatencyTracker \<Rightarrow> TurnLatency" where
  "lat_current tr = l_objects tr ! l_current_turn tr"

definition lat_history :: "LatencyTracker \<Rightarrow> TurnLatency list" where
  "lat_history tr = map (\<lambda>a. l_objects tr ! a) (l_turns tr)"

definition lat_update_current :: "(TurnLatency \<Rightarrow> TurnLatency) \<Rightarrow> LatencyTracker \<Rightarrow> LatencyTracker" where
  "lat_update_current f tr =
     tr\<lparr>l_objects := (l_objects tr)[l_current_turn tr := f (lat_current tr)]\<rparr>"

text \<open>\<open>logger.info(name, **kwargs)\<close> from this tracker.\<close>

definition logger_info :: "string \<Rightarrow> (string \<times> pyval) list \<Rightarrow> LatencyTracker \<Rightarrow> LatencyTracker" where
  "logger_info name kwargs tr = tr\<lparr>l_log := l_log tr @ [LogEvent ''info'' name kwargs]\<rparr>"

text \<open>
  \<open>_log_stage\<close>: the field \<open>latency_ms\<close> is added behind \<open>is not None\<close>, so a latency
  of zero is logged.
\<close>

definition log_stage :: "string \<Rightarrow> string \<Rightarrow> real option \<Rightarrow> LatencyTracker \<Rightarrow> LatencyTracker" where
  "log_stage stg event latency_ms tr =
     (let log_data =
            [(''session_id'', PyStr (l_session_id tr)),
             (''turn_id'', PyInt (tl_turn_id (lat_current tr))),
             (''stage'', PyStr stg)]
            @ (case latency_ms of
                 None \<Rightarrow> []
               | Some v \<Rightarrow> [(''latency_ms'', PyFloat (py_round v 2))])
      in logger_info (stg @ ''_'' @ event) log_data tr)"

text \<open>Every timing method reads the clock once; \<open>now\<close> is that reading.\<close>

definition start_stt :: "real \<Rightarrow> LatencyTracker \<Rightarrow> LatencyTracker" where
  "start_stt now tr =
     log_stage ''stt'' ''started'' None
       (lat_update_current (\<lambda>t. t\<lparr>stt := (stt t)\<lparr>start_time := Some now\<rparr>\<rparr>) tr)"

definition stt_first_result :: "real \<Rightarrow> LatencyTracker \<Rightarrow> LatencyTracker" where
  "stt_first_result now tr =
     (let tr1 = lat_update_current (\<lambda>t. t\<lparr>stt := (stt t)\<lparr>first_result_time := Some now\<rparr>\<rparr>) tr
      in log_stage ''stt'' ''first_result'' (time_to_first_result (stt (lat_current tr1))) tr1)"

definition end_stt :: "real \<Rightarrow> LatencyTracker \<Rightarrow> LatencyTracker" where
  "end_stt now tr =
     (let tr1 = lat_update_current (\<lambda>t. t\<lparr>stt := (stt t)\<lparr>end_time := Some now\<rparr>\<rparr>) tr
      in log_stage ''stt'' ''completed'' (total_duration (stt (lat_current tr1))) tr1)"

definition start_llm :: "real \<Rightarrow> LatencyTracker \<Rightarrow> LatencyTracker" where
  "start_llm now tr =
     log_stage ''llm'' ''started'' None
       (lat_update_current (\<lambda>t. t\<lparr>llm := (llm t)\<lparr>start_time := Some now\<rparr>\<rparr>) tr)"

definition llm_first_token :: "real \<Rightarrow> LatencyTracker \<Rightarrow> LatencyTracker" where
  "llm_first_token now tr =
     (let tr1 = lat_update_current (\<lambda>t. t\<lparr>llm := (llm t)\<lparr>first_result_time := Some now\<rparr>\<rparr>) tr
      in log_stage ''llm'' ''first_token'' (time_to_first_result (llm (lat_current tr1))) tr1)"

definition end_llm :: "real \<Rightarrow> LatencyTracker \<Rightarrow> LatencyTracker" where
  "end_llm now tr =
     (let tr1 = lat_update_current (\<lambda>t. t\<lparr>llm := (llm t)\<lparr>end_time := Some now\<rparr>\<rparr>) tr
      in log_stage ''llm'' ''completed'' (total_duration (llm (lat_current tr1))) tr1)"

definition start_tool :: "real \<Rightarrow> LatencyTracker \<Rightarrow> LatencyTracker" where
  "start_tool now tr =
     log_stage ''tool'' ''started'' None
       (lat_update_current (\<lambda>t. t\<lparr>tool := (tool t)\<lparr>start_time := Some now\<rparr>\<rparr>) tr)"

definition end_tool :: "real \<Rightarrow> LatencyTracker \<Rightarrow> LatencyTracker" where
  "end_tool now tr =
     (let tr1 = lat_update_current (\<lambda>t. t\<lparr>tool := (tool t)\<lparr>end_time := Some now\<rparr>\<rparr>) tr;
          tr2 = lat_update_current
                  (\<lambda>t. t\<lparr>tool := (tool t)\<lparr>first_result_time := end_time (tool t)\<rparr>\<rparr>) tr1
      in log_stage ''tool'' ''completed'' (total_duration (tool (lat_current tr2))) tr2)"

definition start_tts :: "real \<Rightarrow> LatencyTracker \<Rightarrow> LatencyTracker" where
  "start_tts now tr =
     log_stage ''tts'' ''started'' None
       (lat_update_current (\<lambda>t. t\<lparr>tts := (tts t)\<lparr>start_time := Some now\<rparr>\<rparr>) tr)"

text \<open>
  \<open>tts_first_audio\<close> logs the stage event and then, behind \<open>if e2e:\<close>, the
  \<open>end_to_end_latency\<close> event that carries \<open>target_met\<close>.
\<close>

definition tts_first_audio :: "real \<Rightarrow> LatencyTracker \<Rightarrow> LatencyTracker" where
  "tts_first_audio now tr =
     (let tr1 = lat_update_current (\<lambda>t. t\<lparr>tts := (tts t)\<lparr>first_result_time := Some now\<rparr>\<rparr>) tr;
          tr2 = log_stage ''tts'' ''first_audio'' (time_to_first_result (tts (lat_current tr1))) tr1;
          e2e = end_to_end_latency (lat_current tr2)
      in if truthy e2e
         then logger_info ''end_to_end_latency''
                [(''session_id'', PyStr (l_session_id tr2)),
                 (''turn_id'', PyInt (tl_turn_id (lat_current tr2))),
                 (''latency_ms'', PyFloat (py_round (the e2e) 2)),
                 (''target_met'', PyBool (the e2e \<le> 2000))] tr2
         else tr2)"

definition end_tts :: "real \<Rightarrow> LatencyTracker \<Rightarrow> LatencyTracker" where
  "end_tts now tr =
     (let tr1 = lat_update_current (\<lambda>t. t\<lparr>tts := (tts t)\<lparr>end_time := Some now\<rparr>\<rparr>) tr
      in log_stage ''tts'' ''completed'' (total_duration (tts (lat_current tr1))) tr1)"

text \<open>\<open>round(x or 0, 2)\<close>: a falsy \<open>x\<close> gives the int \<open>0\<close>, which \<open>round\<close> keeps an int.\<close>

definition round_or_zero :: "real option \<Rightarrow> pyval" where
  "round_or_zero v = (if truthy v then PyFloat (py_round (the v) 2) else PyInt 0)"

text \<open>
  \<open>finish_turn\<close> reads the clock twice: \<open>t_end\<close> for \<open>turn_end_time\<close> and \<open>t_new\<close> in
  the constructor of the new open turn. It returns the reference to the completed turn.
\<close>

definition lat_finish_turn :: "real \<Rightarrow> real \<Rightarrow> LatencyTracker \<Rightarrow> addr \<times> LatencyTracker" where
  "lat_finish_turn t_end t_new tr =
     (let tr1 = lat_update_current (\<lambda>t. t\<lparr>turn_end_time := Some t_end\<rparr>) tr;
          completed_turn = l_current_turn tr1;
          tr2 = tr1\<lparr>l_turns := l_turns tr1 @ [completed_turn]\<rparr>;
          completed = l_objects tr2 ! completed_turn;
          tr3 = logger_info ''turn_completed''
                  [(''session_id'', PyStr (l_session_id tr2)),
                   (''turn_id'', PyInt (tl_turn_id completed)),
                   (''total_duration_ms'', round_or_zero (total_turn_duration completed)),
                   (''end_to_end_ms'', round_or_zero (end_to_end_latency completed))] tr2;
          counter' = l_turn_counter tr3 + 1
      in (completed_turn,
          tr3\<lparr>l_turn_counter := counter',
              l_current_turn := length (l_objects tr3),
              l_objects := l_objects tr3 @ [new_TurnLatency counter' t_new]\<rparr>))"

definition average_end_to_end_latency :: "LatencyTracker \<Rightarrow> real option" where
  "average_end_to_end_latency tr =
     (let latencies = map (\<lambda>t. the (end_to_end_latency t))
                        (filter (\<lambda>t. truthy (end_to_end_latency t)) (lat_history tr))
      in if latencies = [] then None
         else Some (sum_list latencies / real (length latencies)))"

definition lat_turn_count :: "LatencyTracker \<Rightarrow> int" where
  "lat_turn_count tr = int (length (l_turns tr))"

text \<open>The operations a driver can apply to a latency tracker, and a run of them.\<close>

datatype lat_op =
    StartStt real | SttFirstResult real | EndStt real
  | StartLlm real | LlmFirstToken real | EndLlm real
  | StartTool real | EndTool real
  | StartTts real | TtsFirstAudio real | EndTts real
  | FinishLat real real

fun lat_step :: "lat_op \<Rightarrow> LatencyTracker \<Rightarrow> LatencyTracker" where
  "lat_step (StartStt now) tr = start_stt now tr"
| "lat_step (SttFirstResult now) tr = stt_first_result now tr"
| "lat_step (EndStt now) tr = end_stt now tr"
| "lat_step (StartLlm now) tr = start_llm now tr"
| "lat_step (LlmFirstToken now) tr = llm_first_token now tr"
| "lat_step (EndLlm now) tr = end_llm now tr"
| "lat_step (StartTool now) tr = start_tool now tr"
| "lat_step (EndTool now) tr = end_tool now tr"
| "lat_step (StartTts now) tr = start_tts now tr"
| "lat_step (TtsFirstAudio now) tr = tts_first_audio now tr"
| "lat_step (EndTts now) tr = end_tts now tr"
| "lat_step (FinishLat t_end t_new) tr = snd (lat_finish_turn t_end t_new tr)"

definition lat_run :: "lat_op list \<Rightarrow> LatencyTracker \<Rightarrow> LatencyTracker" where
  "lat_run ops tr = fold lat_step ops tr"



section \<open>session\_manager.py\<close>

record Session =
  session_id :: string
  created_at :: real
  cost_tracker :: CostTracker
  latency_tracker :: LatencyTracker
  is_active :: bool
  metadata :: "(string \<times> pyval) list"

text \<open>
  \<open>Session(session_id=sid, metadata=md)\<close> with \<open>__post_init__\<close>. Three clock readings
  are taken: by \<open>datetime.utcnow\<close> for \<open>created_at\<close> (kept as seconds), and by the
  constructors of the first open turn of each tracker.
\<close>

definition new_Session :: "string \<Rightarrow> (string \<times> pyval) list \<Rightarrow> real \<times> real \<times> real \<Rightarrow> Session" where
  "new_Session sid md clock =
     (case clock of (t_created, t_cost, t_latency) \<Rightarrow>
        \<lparr>session_id = sid, created_at = t_created,
         cost_tracker = CostTracker_init sid t_cost,
         latency_tracker = LatencyTracker_init sid t_latency,
         is_active = True, metadata = md\<rparr>)"

text \<open>
  A \<open>SessionManager\<close>: \<open>sm_objects\<close> is the store of the \<open>Session\<close> objects it has
  created; \<open>_sessions\<close> is the dictionary from session id to a reference, in insertion
  order; \<open>sm_log\<close> holds its calls to the logger. Each of \<open>create_session\<close> and
  \<open>remove_session\<close> runs under the manager's lock without awaiting inside, and is one
  step of the model.
\<close>

record SessionManager =
  sm_objects :: "Session list"
  sm_sessions :: "(string \<times> addr) list"
  sm_total_sessions_created :: int
  sm_log :: "log_event list"

definition SessionManager_init :: SessionManager where
  "SessionManager_init =
     \<lparr>sm_objects = [], sm_sessions = [], sm_total_sessions_created = 0, sm_log = []\<rparr>"

definition sm_logger :: "string \<Rightarrow> string \<Rightarrow> (string \<times> pyval) list \<Rightarrow> SessionManager \<Rightarrow> SessionManager" where
  "sm_logger level name kwargs m = m\<lparr>sm_log := sm_log m @ [LogEvent level name kwargs]\<rparr>"

text \<open>\<open>self._sessions.values()\<close>, dereferenced, in the dictionary's order.\<close>

definition sessions_values :: "SessionManager \<Rightarrow> Session list" where
  "sessions_values m = map (\<lambda>(k, a). sm_objects m ! a) (sm_sessions m)"

text \<open>\<open>metadata\<close> is \<open>None\<close> when the caller omits it; \<open>metadata or {}\<close>.\<close>

definition create_session ::
  "string \<Rightarrow> (string \<times> pyval) list option \<Rightarrow> real \<times> real \<times> real \<Rightarrow> SessionManager
     \<Rightarrow> addr \<times> SessionManager" where
  "create_session sid md clock m =
     (case map_of (sm_sessions m) sid of
        Some existing \<Rightarrow>
          (existing,
           sm_logger ''warning'' ''session_already_exists'' [(''session_id'', PyStr sid)] m)
      | None \<Rightarrow>
          (let session = new_Session sid (case md of None \<Rightarrow> [] | Some d \<Rightarrow> d) clock;
               a = length (sm_objects m);
               m1 = m\<lparr>sm_objects := sm_objects m @ [session],
                       sm_sessions := sm_sessions m @ [(sid, a)],
                       sm_total_sessions_created := sm_total_sessions_created m + 1\<rparr>
           in (a,
               sm_logger ''info'' ''session_created''
                 [(''session_id'', PyStr sid),
                  (''active_sessions'', PyInt (int (length (sm_sessions m1))))] m1)))"

definition get_session :: "string \<Rightarrow> SessionManager \<Rightarrow> addr option" where
  "get_session sid m = map_of (sm_sessions m) sid"

text \<open>
  \<open>remove_session\<close>: \<open>pop(session_id, None)\<close>, then behind \<open>if session:\<close> (a
  \<open>Session\<close> object is always true) the flag is cleared and the removal logged. \<open>now\<close>
  is the clock reading of the log call.
\<close>

definition remove_session :: "string \<Rightarrow> real \<Rightarrow> SessionManager \<Rightarrow> addr option \<times> SessionManager" where
  "remove_session sid now m =
     (case map_of (sm_sessions m) sid of
        None \<Rightarrow> (None, m)
      | Some a \<Rightarrow>
          (let m1 = m\<lparr>sm_sessions := filter (\<lambda>(k, b). k \<noteq> sid) (sm_sessions m)\<rparr>;
               m2 = m1\<lparr>sm_objects := (sm_objects m1)[a := (sm_objects m1 ! a)\<lparr>is_active := False\<rparr>]\<rparr>;
               session = sm_objects m2 ! a
           in (Some a,
               sm_logger ''info'' ''session_removed''
                 [(''session_id'', PyStr sid),
                  (''duration_seconds'', PyFloat (now - created_at session)),
                  (''turns'', PyInt (lat_turn_count (latency_tracker session))),
                  (''total_cost'', PyFloat (total_cost (cost_tracker session))),
                  (''active_sessions'', PyInt (int (length (sm_sessions m2))))] m2)))"

definition active_session_count :: "SessionManager \<Rightarrow> int" where
  "active_session_count m = int (length (sm_sessions m))"

definition total_sessions_created :: "SessionManager \<Rightarrow> int" where
  "total_sessions_created m = sm_total_sessions_created m"

definition get_active_sessions :: "SessionManager \<Rightarrow> string list" where
  "get_active_sessions m = map fst (sm_sessions m)"

text \<open>The loop of \<open>_get_cost_breakdown\<close>: accumulators \<open>(stt_cost, llm_cost, tts_cost)\<close>.\<close>

fun cost_breakdown_loop :: "Session list \<Rightarrow> real \<times> real \<times> real \<Rightarrow> real \<times> real \<times> real" where
  "cost_breakdown_loop [] acc = acc"
| "cost_breakdown_loop (session # rest) (stt_c, llm_c, tts_c) =
     cost_breakdown_loop rest
       (stt_c + total_stt_cost (cost_tracker session),
        llm_c + total_llm_cost (cost_tracker session),
        tts_c + total_tts_cost (cost_tracker session))"

definition get_cost_breakdown :: "SessionManager \<Rightarrow> pyval" where
  "get_cost_breakdown m =
     (case cost_breakdown_loop (sessions_values m) (0, 0, 0) of
        (stt_c, llm_c, tts_c) \<Rightarrow>
          PyDict [(''stt'', PyFloat (py_round stt_c 6)),
                  (''llm'', PyFloat (py_round llm_c 6)),
                  (''tts'', PyFloat (py_round tts_c 6))])"

text \<open>
  The loop of \<open>get_aggregate_metrics\<close>: accumulators
  \<open>(total_cost, latencies, total_turns)\<close>.
\<close>

fun aggregate_loop :: "Session list \<Rightarrow> real \<times> real list \<times> int \<Rightarrow> real \<times> real list \<times> int" where
  "aggregate_loop [] acc = acc"
| "aggregate_loop (session # rest) (total_c, latencies, total_turns) =
     (let avg_lat = average_end_to_end_latency (latency_tracker session)
      in aggregate_loop rest
           (total_c + total_cost (cost_tracker session),
            (if truthy avg_lat then latencies @ [the avg_lat] else latencies),
            total_turns + lat_turn_count (latency_tracker session)))"

definition get_aggregate_metrics :: "SessionManager \<Rightarrow> pyval" where
  "get_aggregate_metrics m =
     (if sm_sessions m = []
      then PyDict [(''active_sessions'', PyInt 0),
                   (''total_sessions_created'', PyInt (sm_total_sessions_created m)),
                   (''aggregate_cost'', PyFloat 0),
                   (''average_latency_ms'', PyNone)]
      else
        (case aggregate_loop (sessions_values m) (0, [], 0) of
           (total_c, latencies, total_turns) \<Rightarrow>
             (let avg_latency =
                    (if latencies \<noteq> []
                     then Some (sum_list latencies / real (length latencies))
                     else None)
              in PyDict [(''active_sessions'', PyInt (active_session_count m)),
                         (''total_sessions_created'', PyInt (sm_total_sessions_created m)),
                         (''total_turns'', PyInt total_turns),
                         (''aggregate_cost'',
                            PyDict [(''total'', PyFloat (py_round total_c 6)),
                                    (''breakdown'', get_cost_breakdown m)]),
                         (''average_latency_ms'',
                            (if truthy avg_latency
                             then PyFloat (py_round (the avg_latency) 2)
                             else PyNone)),
                         (''target_latency_ms'', PyInt 2000)])))"

text \<open>The lifecycle operations of the registry, and a run of them.\<close>

datatype registry_op =
    CreateSession string "(string \<times> pyval) list option" "real \<times> real \<times> real"
  | RemoveSession string real

fun registry_step :: "registry_op \<Rightarrow> SessionManager \<Rightarrow> SessionManager" where
  "registry_step (CreateSession sid md clock) m = snd (create_session sid md clock m)"
| "registry_step (RemoveSession sid now) m = snd (remove_session sid now m)"

definition registry_run :: "registry_op list \<Rightarrow> SessionManager \<Rightarrow> SessionManager" where
  "registry_run ops m = fold registry_step ops m"


section \<open>Invariants of the stores\<close>

text \<open>
  A cost tracker is well formed when the reference of the open turn is valid and is not
  in the history, every reference in the history is valid, and the turn ids of the
  history and of the open turn count up from zero.
\<close>

definition cost_inv :: "CostTracker \<Rightarrow> bool" where
  "cost_inv tr \<longleftrightarrow>
     c_current_turn tr < length (c_objects tr) \<and>
     (\<forall>a \<in> set (c_turns tr). a < length (c_objects tr) \<and> a \<noteq> c_current_turn tr) \<and>
     map tc_turn_id (cost_history tr) = map int [0..<length (c_turns tr)] \<and>
     tc_turn_id (cost_current tr) = int (length (c_turns tr)) \<and>
     c_turn_counter tr = int (length (c_turns tr))"

text \<open>The same for a latency tracker.\<close>

definition lat_inv :: "LatencyTracker \<Rightarrow> bool" where
  "lat_inv tr \<longleftrightarrow>
     l_current_turn tr < length (l_objects tr) \<and>
     (\<forall>a \<in> set (l_turns tr). a < length (l_objects tr) \<and> a \<noteq> l_current_turn tr) \<and>
     map tl_turn_id (lat_history tr) = map int [0..<length (l_turns tr)] \<and>
     tl_turn_id (lat_current tr) = int (length (l_turns tr)) \<and>
     l_turn_counter tr = int (length (l_turns tr))"

text \<open>In every turn object the tool stage has first result and end set together.\<close>

definition tool_inv :: "LatencyTracker \<Rightarrow> bool" where
  "tool_inv tr \<longleftrightarrow> (\<forall>t \<in> set (l_objects tr). first_result_time (tool t) = end_time (tool t))"

text \<open>
  The registry is well formed when its keys are distinct, no two keys share a session
  object, and every mapped reference is valid and refers to an active session.
\<close>

definition registry_inv :: "SessionManager \<Rightarrow> bool" where
  "registry_inv m \<longleftrightarrow>
     distinct (map fst (sm_sessions m)) \<and>
     distinct (map snd (sm_sessions m)) \<and>
     (\<forall>a \<in> snd ` set (sm_sessions m). a < length (sm_objects m) \<and> is_active (sm_objects m ! a))"


section \<open>The specification's averages, and concrete states\<close>

text \<open>
  The mean of the end-to-end latency as the specification words it: over the history
  entries whose value is defined, that is, not \<open>None\<close>.
\<close>

definition spec_average_end_to_end_latency :: "LatencyTracker \<Rightarrow> real option" where
  "spec_average_end_to_end_latency tr =
     (let latencies = map (\<lambda>t. the (end_to_end_latency t))
                        (filter (\<lambda>t. end_to_end_latency t \<noteq> None) (lat_history tr))
      in if latencies = [] then None
         else Some (sum_list latencies / real (length latencies)))"

text \<open>The name of a logged event.\<close>

fun event_name :: "log_event \<Rightarrow> string" where
  "event_name (LogEvent level name kwargs) = name"

definition open_cost_example :: CostTracker where
  "open_cost_example =
     cost_run [AddStt 60, FinishCost 1, AddStt 60] (CostTracker_init ''s1'' 0)"

definition zero_start_stage :: StageLatency where
  "zero_start_stage =
     \<lparr>stage = ''stt'', start_time = Some 0, first_result_time = Some 0.15, end_time = Some 0.5\<rparr>"

definition zero_start_turn :: LatencyTracker where
  "zero_start_turn = lat_run [StartStt 0, TtsFirstAudio 1.8] (LatencyTracker_init ''s1'' 0)"

definition zero_latency_history :: LatencyTracker where
  "zero_latency_history =
     lat_run [StartStt 5, TtsFirstAudio 5, FinishLat 6 6,
              StartStt 10, TtsFirstAudio 11, FinishLat 12 12] (LatencyTracker_init ''s1'' 0)"

definition tool_example :: LatencyTracker where
  "tool_example = lat_run [StartTool 1, EndTool 3] (LatencyTracker_init ''s1'' 0)"

definition two_sessions :: SessionManager where
  "two_sessions =
     registry_run [CreateSession ''a'' None (1, 1, 1), CreateSession ''b'' None (2, 2, 2)]
       SessionManager_init"


section \<open>Cost tracker: the invariant and the stability of finalized turns\<close>

lemmas cost_defs = CostTracker_init_def new_TurnCost_def cost_current_def cost_history_def
  cost_update_current_def add_stt_cost_def add_llm_cost_def add_tts_cost_def cost_finish_turn_def
  total_stt_cost_def total_llm_cost_def total_tts_cost_def total_cost_def llm_cost_def turn_total_def
  SONIOX_COST_PER_MINUTE_def GROQ_INPUT_COST_PER_MILLION_def GROQ_OUTPUT_COST_PER_MILLION_def
  ELEVENLABS_COST_PER_1K_CHARS_def average_cost_per_turn_def cost_run_def

lemma cost_inv_init: "cost_inv (CostTracker_init sid now)"
  by (simp add: cost_inv_def CostTracker_init_def cost_history_def cost_current_def new_TurnCost_def)

lemma cost_update_current_fields [simp]:
  "c_turns (cost_update_current f tr) = c_turns tr"
  "c_current_turn (cost_update_current f tr) = c_current_turn tr"
  "c_turn_counter (cost_update_current f tr) = c_turn_counter tr"
  "length (c_objects (cost_update_current f tr)) = length (c_objects tr)"
  by (simp_all add: cost_update_current_def)

lemma cost_update_current_other:
  "a \<noteq> c_current_turn tr \<Longrightarrow> c_objects (cost_update_current f tr) ! a = c_objects tr ! a"
  by (simp add: cost_update_current_def)

lemma cost_update_current_current:
  "c_current_turn tr < length (c_objects tr) \<Longrightarrow>
   cost_current (cost_update_current f tr) = f (cost_current tr)"
  by (simp add: cost_update_current_def cost_current_def)

lemma cost_inv_update:
  assumes "\<And>t. tc_turn_id (f t) = tc_turn_id t" and "cost_inv tr"
  shows "cost_inv (cost_update_current f tr)"
proof -
  have "cost_history (cost_update_current f tr) = cost_history tr"
    using assms(2) by (auto simp: cost_history_def cost_inv_def cost_update_current_other)
  then show ?thesis
    using assms by (simp add: cost_inv_def cost_update_current_current)
qed

lemma cost_finish_turn_fields [simp]:
  "fst (cost_finish_turn now tr) = c_current_turn tr"
  "c_turns (snd (cost_finish_turn now tr)) = c_turns tr @ [c_current_turn tr]"
  "c_current_turn (snd (cost_finish_turn now tr)) = length (c_objects tr)"
  "c_turn_counter (snd (cost_finish_turn now tr)) = c_turn_counter tr + 1"
  "c_objects (snd (cost_finish_turn now tr)) = c_objects tr @ [new_TurnCost (c_turn_counter tr + 1) now]"
  by (simp_all add: cost_finish_turn_def Let_def)

lemma cost_inv_finish:
  assumes "cost_inv tr"
  shows "cost_inv (snd (cost_finish_turn now tr))"
proof -
  let ?tr' = "snd (cost_finish_turn now tr)"
  have cur: "c_current_turn tr < length (c_objects tr)"
    and old: "\<And>a. a \<in> set (c_turns tr) \<Longrightarrow> a < length (c_objects tr)"
    and ids: "map tc_turn_id (cost_history tr) = map int [0..<length (c_turns tr)]"
    and cid: "tc_turn_id (cost_current tr) = int (length (c_turns tr))"
    and cnt: "c_turn_counter tr = int (length (c_turns tr))"
    using assms by (auto simp: cost_inv_def)
  have hist: "cost_history ?tr' = cost_history tr @ [cost_current tr]"
    using cur old by (auto simp: cost_history_def cost_current_def nth_append)
  have "cost_current ?tr' = new_TurnCost (c_turn_counter tr + 1) now"
    by (simp add: cost_current_def)
  then show ?thesis
    using cur old ids cid cnt hist
    by (auto simp: cost_inv_def new_TurnCost_def less_SucI)
qed

lemma cost_inv_step: "cost_inv tr \<Longrightarrow> cost_inv (cost_step op tr)"
  by (cases op) (simp_all add: add_stt_cost_def add_llm_cost_def add_tts_cost_def
      cost_inv_update cost_inv_finish Let_def)

lemma cost_inv_run: "cost_inv tr \<Longrightarrow> cost_inv (cost_run ops tr)"
  unfolding cost_run_def by (induction ops arbitrary: tr) (simp_all add: cost_inv_step)

lemma cost_step_history_stable:
  assumes "cost_inv tr" and "a \<in> set (c_turns tr)"
  shows "c_objects (cost_step op tr) ! a = c_objects tr ! a \<and> a \<in> set (c_turns (cost_step op tr))"
proof -
  have neq: "a \<noteq> c_current_turn tr" and lt: "a < length (c_objects tr)"
    using assms by (auto simp: cost_inv_def)
  show ?thesis
    using neq lt assms(2)
    by (cases op) (simp_all add: add_stt_cost_def add_llm_cost_def add_tts_cost_def
        cost_update_current_other nth_append Let_def)
qed

lemma cost_run_history_stable:
  "cost_inv tr \<Longrightarrow> a \<in> set (c_turns tr) \<Longrightarrow> c_objects (cost_run ops tr) ! a = c_objects tr ! a"
  unfolding cost_run_def
proof (induction ops arbitrary: tr)
  case Nil
  then show ?case by simp
next
  case (Cons op ops)
  have "c_objects (fold cost_step ops (cost_step op tr)) ! a = c_objects (cost_step op tr) ! a"
    using Cons.prems by (intro Cons.IH) (simp_all add: cost_inv_step cost_step_history_stable)
  then show ?case
    using Cons.prems by (simp add: cost_step_history_stable)
qed

lemma cost_run_finishes_length:
  "length (c_turns (cost_run (map FinishCost ts) tr)) = length (c_turns tr) + length ts"
  unfolding cost_run_def by (induction ts arbitrary: tr) simp_all


section \<open>Latency tracker: the invariant and the stability of finalized turns\<close>

lemma lat_inv_init: "lat_inv (LatencyTracker_init sid now)"
  by (simp add: lat_inv_def LatencyTracker_init_def lat_history_def lat_current_def new_TurnLatency_def)

lemma logger_info_fields [simp]:
  "l_objects (logger_info name kw tr) = l_objects tr"
  "l_turns (logger_info name kw tr) = l_turns tr"
  "l_current_turn (logger_info name kw tr) = l_current_turn tr"
  "l_turn_counter (logger_info name kw tr) = l_turn_counter tr"
  "l_session_id (logger_info name kw tr) = l_session_id tr"
  by (simp_all add: logger_info_def)

lemma log_stage_fields [simp]:
  "l_objects (log_stage stg ev lat tr) = l_objects tr"
  "l_turns (log_stage stg ev lat tr) = l_turns tr"
  "l_current_turn (log_stage stg ev lat tr) = l_current_turn tr"
  "l_turn_counter (log_stage stg ev lat tr) = l_turn_counter tr"
  "l_session_id (log_stage stg ev lat tr) = l_session_id tr"
  by (simp_all add: log_stage_def Let_def)

lemma lat_current_log [simp]:
  "lat_current (logger_info name kw tr) = lat_current tr"
  "lat_current (log_stage stg ev lat tr) = lat_current tr"
  by (simp_all add: lat_current_def)

lemma lat_inv_log [simp]:
  "lat_inv (logger_info name kw tr) = lat_inv tr"
  "lat_inv (log_stage stg ev lat tr) = lat_inv tr"
  by (simp_all add: lat_inv_def lat_history_def)

lemma tool_inv_log [simp]:
  "tool_inv (logger_info name kw tr) = tool_inv tr"
  "tool_inv (log_stage stg ev lat tr) = tool_inv tr"
  by (simp_all add: tool_inv_def)

lemma lat_update_current_fields [simp]:
  "l_turns (lat_update_current f tr) = l_turns tr"
  "l_current_turn (lat_update_current f tr) = l_current_turn tr"
  "l_turn_counter (lat_update_current f tr) = l_turn_counter tr"
  "l_session_id (lat_update_current f tr) = l_session_id tr"
  "length (l_objects (lat_update_current f tr)) = length (l_objects tr)"
  by (simp_all add: lat_update_current_def)

lemma lat_update_current_other:
  "a \<noteq> l_current_turn tr \<Longrightarrow> l_objects (lat_update_current f tr) ! a = l_objects tr ! a"
  by (simp add: lat_update_current_def)

lemma lat_update_current_current:
  "l_current_turn tr < length (l_objects tr) \<Longrightarrow>
   lat_current (lat_update_current f tr) = f (lat_current tr)"
  by (simp add: lat_update_current_def lat_current_def)

lemma lat_update_current_twice:
  "lat_update_current g (lat_update_current f tr) = lat_update_current (\<lambda>t. g (f t)) tr"
  by (cases "l_current_turn tr < length (l_objects tr)")
     (simp_all add: lat_update_current_def lat_current_def not_less list_update_beyond)

lemma lat_inv_update:
  assumes "\<forall>t. tl_turn_id (f t) = tl_turn_id t" and "lat_inv tr"
  shows "lat_inv (lat_update_current f tr)"
proof -
  have "lat_history (lat_update_current f tr) = lat_history tr"
    using assms(2) by (auto simp: lat_history_def lat_inv_def lat_update_current_other)
  then show ?thesis
    using assms by (simp add: lat_inv_def lat_update_current_current)
qed

lemma tool_inv_update:
  assumes "\<forall>t. first_result_time (tool t) = end_time (tool t)
             \<longrightarrow> first_result_time (tool (f t)) = end_time (tool (f t))"
    and "lat_inv tr" and "tool_inv tr"
  shows "tool_inv (lat_update_current f tr)"
proof -
  have cur: "lat_current tr \<in> set (l_objects tr)"
    using assms(2) by (simp add: lat_inv_def lat_current_def)
  have "set (l_objects (lat_update_current f tr)) \<subseteq> insert (f (lat_current tr)) (set (l_objects tr))"
    by (simp add: lat_update_current_def set_update_subset_insert)
  then show ?thesis
    using assms(1,3) cur unfolding tool_inv_def by blast
qed

lemma lat_finish_turn_fields [simp]:
  "fst (lat_finish_turn t_end t_new tr) = l_current_turn tr"
  "l_turns (snd (lat_finish_turn t_end t_new tr)) = l_turns tr @ [l_current_turn tr]"
  "l_current_turn (snd (lat_finish_turn t_end t_new tr)) = length (l_objects tr)"
  "l_turn_counter (snd (lat_finish_turn t_end t_new tr)) = l_turn_counter tr + 1"
  "l_objects (snd (lat_finish_turn t_end t_new tr)) =
     l_objects (lat_update_current (\<lambda>t. t\<lparr>turn_end_time := Some t_end\<rparr>) tr)
       @ [new_TurnLatency (l_turn_counter tr + 1) t_new]"
  by (simp_all add: lat_finish_turn_def Let_def)

lemma lat_inv_finish:
  assumes "lat_inv tr"
  shows "lat_inv (snd (lat_finish_turn t_end t_new tr))"
proof -
  let ?u = "lat_update_current (\<lambda>t. t\<lparr>turn_end_time := Some t_end\<rparr>) tr"
  let ?tr' = "snd (lat_finish_turn t_end t_new tr)"
  have inv: "lat_inv ?u"
    using assms by (simp add: lat_inv_update)
  have cur: "l_current_turn tr < length (l_objects ?u)"
    and old: "\<And>a. a \<in> set (l_turns tr) \<Longrightarrow> a < length (l_objects ?u)"
    and ids: "map tl_turn_id (lat_history ?u) = map int [0..<length (l_turns tr)]"
    and cid: "tl_turn_id (lat_current ?u) = int (length (l_turns tr))"
    and cnt: "l_turn_counter tr = int (length (l_turns tr))"
    using inv by (auto simp: lat_inv_def)
  have hist: "lat_history ?tr' = lat_history ?u @ [lat_current ?u]"
    using cur old by (auto simp: lat_history_def lat_current_def nth_append)
  have "lat_current ?tr' = new_TurnLatency (l_turn_counter tr + 1) t_new"
    by (simp add: lat_current_def nth_append)
  then show ?thesis
    using cur old ids cid cnt hist
    by (auto simp: lat_inv_def new_TurnLatency_def less_SucI)
qed

lemma tool_inv_finish:
  assumes "lat_inv tr" and "tool_inv tr"
  shows "tool_inv (snd (lat_finish_turn t_end t_new tr))"
proof -
  have "tool_inv (lat_update_current (\<lambda>t. t\<lparr>turn_end_time := Some t_end\<rparr>) tr)"
    using assms by (simp add: tool_inv_update)
  then show ?thesis
    by (auto simp: tool_inv_def new_TurnLatency_def new_StageLatency_def)
qed

lemmas lat_op_defs = start_stt_def stt_first_result_def end_stt_def start_llm_def
  llm_first_token_def end_llm_def start_tool_def end_tool_def start_tts_def
  tts_first_audio_def end_tts_def

lemma lat_inv_step: "lat_inv tr \<Longrightarrow> lat_inv (lat_step op tr)"
  by (cases op) (simp_all add: lat_op_defs Let_def lat_inv_update lat_inv_finish)

lemma tool_inv_step: "lat_inv tr \<Longrightarrow> tool_inv tr \<Longrightarrow> tool_inv (lat_step op tr)"
  by (cases op)
     (simp_all add: lat_op_defs Let_def lat_update_current_twice tool_inv_update tool_inv_finish)

lemma lat_inv_run: "lat_inv tr \<Longrightarrow> lat_inv (lat_run ops tr)"
  unfolding lat_run_def by (induction ops arbitrary: tr) (simp_all add: lat_inv_step)

lemma tool_inv_run: "lat_inv tr \<Longrightarrow> tool_inv tr \<Longrightarrow> tool_inv (lat_run ops tr)"
  unfolding lat_run_def
  by (induction ops arbitrary: tr) (simp_all add: lat_inv_step tool_inv_step)

lemma lat_step_history_stable:
  assumes "lat_inv tr" and "a \<in> set (l_turns tr)"
  shows "l_objects (lat_step op tr) ! a = l_objects tr ! a \<and> a \<in> set (l_turns (lat_step op tr))"
proof -
  have neq: "a \<noteq> l_current_turn tr" and lt: "a < length (l_objects tr)"
    using assms by (auto simp: lat_inv_def)
  show ?thesis
    using neq lt assms(2)
    by (cases op) (simp_all add: lat_op_defs lat_update_current_other nth_append Let_def)
qed

lemma lat_run_history_stable:
  "lat_inv tr \<Longrightarrow> a \<in> set (l_turns tr) \<Longrightarrow> l_objects (lat_run ops tr) ! a = l_objects tr ! a"
  unfolding lat_run_def
proof (induction ops arbitrary: tr)
  case Nil
  then show ?case by simp
next
  case (Cons op ops)
  have "l_objects (fold lat_step ops (lat_step op tr)) ! a = l_objects (lat_step op tr) ! a"
    using Cons.prems by (intro Cons.IH) (simp_all add: lat_inv_step lat_step_history_stable)
  then show ?case
    using Cons.prems by (simp add: lat_step_history_stable)
qed

lemma lat_run_finishes_length:
  "length (l_turns (lat_run (map (\<lambda>(t_end, t_new). FinishLat t_end t_new) us) tr))
     = length (l_turns tr) + length us"
  unfolding lat_run_def by (induction us arbitrary: tr) (simp_all add: split_def)

lemmas lat_defs = LatencyTracker_init_def new_TurnLatency_def new_StageLatency_def lat_current_def
  lat_history_def lat_update_current_def logger_info_def log_stage_def lat_op_defs
  time_to_first_result_def total_duration_def end_to_end_latency_def truthy_def lat_finish_turn_def
  average_end_to_end_latency_def round_or_zero_def total_turn_duration_def lat_run_def


section \<open>Registry: the invariant\<close>

lemma registry_inv_init: "registry_inv SessionManager_init"
  by (simp add: registry_inv_def SessionManager_init_def)

lemma sm_logger_fields [simp]:
  "sm_objects (sm_logger lvl name kw m) = sm_objects m"
  "sm_sessions (sm_logger lvl name kw m) = sm_sessions m"
  "sm_total_sessions_created (sm_logger lvl name kw m) = sm_total_sessions_created m"
  by (simp_all add: sm_logger_def)

lemma registry_inv_logger [simp]: "registry_inv (sm_logger lvl name kw m) = registry_inv m"
  by (simp add: registry_inv_def)

lemma new_Session_active [simp]: "is_active (new_Session sid md clock)"
  by (simp add: new_Session_def split: prod.splits)

lemma create_session_existing:
  assumes "map_of (sm_sessions m) sid = Some a"
  shows "fst (create_session sid md clock m) = a"
    and "sm_objects (snd (create_session sid md clock m)) = sm_objects m"
    and "sm_sessions (snd (create_session sid md clock m)) = sm_sessions m"
    and "sm_total_sessions_created (snd (create_session sid md clock m)) = sm_total_sessions_created m"
  using assms by (simp_all add: create_session_def)

lemma create_session_new:
  assumes "map_of (sm_sessions m) sid = None"
  shows "fst (create_session sid md clock m) = length (sm_objects m)"
    and "sm_objects (snd (create_session sid md clock m))
           = sm_objects m @ [new_Session sid (case md of None \<Rightarrow> [] | Some d \<Rightarrow> d) clock]"
    and "sm_sessions (snd (create_session sid md clock m)) = sm_sessions m @ [(sid, length (sm_objects m))]"
    and "sm_total_sessions_created (snd (create_session sid md clock m)) = sm_total_sessions_created m + 1"
  using assms by (simp_all add: create_session_def Let_def)

lemma registry_inv_create:
  assumes "registry_inv m"
  shows "registry_inv (snd (create_session sid md clock m))"
proof (cases "map_of (sm_sessions m) sid")
  case None
  have fresh_key: "sid \<notin> fst ` set (sm_sessions m)"
    using None by (simp add: map_of_eq_None_iff)
  have bound: "\<And>a. a \<in> snd ` set (sm_sessions m) \<Longrightarrow> a < length (sm_objects m)"
    using assms unfolding registry_inv_def by blast
  then have fresh_addr: "length (sm_objects m) \<notin> snd ` set (sm_sessions m)"
    by blast
  show ?thesis
    using assms fresh_key fresh_addr
    by (auto simp: registry_inv_def create_session_new[OF None] nth_append)
next
  case (Some a)
  then show ?thesis
    using assms by (simp add: registry_inv_def create_session_existing)
qed

lemma remove_session_absent:
  "map_of (sm_sessions m) sid = None \<Longrightarrow> remove_session sid now m = (None, m)"
  by (simp add: remove_session_def)

lemma remove_session_present:
  assumes "map_of (sm_sessions m) sid = Some a"
  shows "fst (remove_session sid now m) = Some a"
    and "sm_sessions (snd (remove_session sid now m)) = filter (\<lambda>(k, b). k \<noteq> sid) (sm_sessions m)"
    and "sm_objects (snd (remove_session sid now m))
           = (sm_objects m)[a := (sm_objects m ! a)\<lparr>is_active := False\<rparr>]"
    and "sm_total_sessions_created (snd (remove_session sid now m)) = sm_total_sessions_created m"
  using assms by (simp_all add: remove_session_def Let_def)

lemma removed_addr_gone:
  assumes "registry_inv m" and "map_of (sm_sessions m) sid = Some a"
  shows "a \<notin> snd ` set (filter (\<lambda>(k, b). k \<noteq> sid) (sm_sessions m))"
proof
  assume "a \<in> snd ` set (filter (\<lambda>(k, b). k \<noteq> sid) (sm_sessions m))"
  then obtain k where k: "(k, a) \<in> set (sm_sessions m)" "k \<noteq> sid"
    by auto
  have "(sid, a) \<in> set (sm_sessions m)"
    using assms(2) by (rule map_of_SomeD)
  moreover have "inj_on snd (set (sm_sessions m))"
    using assms(1) by (simp add: registry_inv_def distinct_map)
  ultimately have "(k, a) = (sid, a)"
    using k(1) inj_onD[of snd "set (sm_sessions m)" "(k, a)" "(sid, a)"] by simp
  then show False
    using k(2) by simp
qed

lemma registry_inv_remove:
  assumes "registry_inv m"
  shows "registry_inv (snd (remove_session sid now m))"
proof (cases "map_of (sm_sessions m) sid")
  case None
  then show ?thesis
    using assms by (simp add: remove_session_absent)
next
  case (Some a)
  have gone: "a \<notin> snd ` set (filter (\<lambda>(k, b). k \<noteq> sid) (sm_sessions m))"
    using assms Some by (rule removed_addr_gone)
  have act: "\<And>b. b \<in> snd ` set (sm_sessions m) \<Longrightarrow> b < length (sm_objects m) \<and> is_active (sm_objects m ! b)"
    using assms unfolding registry_inv_def by blast
  have "\<And>b. b \<in> snd ` set (filter (\<lambda>(k, b). k \<noteq> sid) (sm_sessions m)) \<Longrightarrow>
          b < length (sm_objects m) \<and> is_active ((sm_objects m)[a := (sm_objects m ! a)\<lparr>is_active := False\<rparr>] ! b)"
  proof -
    fix b assume b: "b \<in> snd ` set (filter (\<lambda>(k, b). k \<noteq> sid) (sm_sessions m))"
    then have "b \<noteq> a" using gone by auto
    moreover have "b \<in> snd ` set (sm_sessions m)" using b by auto
    ultimately show "b < length (sm_objects m) \<and> is_active ((sm_objects m)[a := (sm_objects m ! a)\<lparr>is_active := False\<rparr>] ! b)"
      using act by simp
  qed
  then show ?thesis
    using assms
    by (simp add: registry_inv_def remove_session_present[OF Some] distinct_map_filter)
qed

lemma registry_inv_step: "registry_inv m \<Longrightarrow> registry_inv (registry_step op m)"
  by (cases op) (simp_all add: registry_inv_create registry_inv_remove)

lemma registry_inv_run: "registry_inv m \<Longrightarrow> registry_inv (registry_run ops m)"
  unfolding registry_run_def by (induction ops arbitrary: m) (simp_all add: registry_inv_step)

lemma registry_inv_values_active:
  "registry_inv m \<Longrightarrow> s \<in> set (sessions_values m) \<Longrightarrow> is_active s"
  by (auto simp: registry_inv_def sessions_values_def)

lemma total_created_step:
  "sm_total_sessions_created m \<le> sm_total_sessions_created (registry_step op m)"
proof (cases op)
  case (CreateSession sid md clock)
  then show ?thesis
    by (cases "map_of (sm_sessions m) sid") (simp_all add: create_session_new create_session_existing)
next
  case (RemoveSession sid now)
  then show ?thesis
    by (cases "map_of (sm_sessions m) sid") (simp_all add: remove_session_absent remove_session_present)
qed

lemma total_created_run:
  "sm_total_sessions_created m \<le> sm_total_sessions_created (registry_run ops m)"
  unfolding registry_run_def
proof (induction ops arbitrary: m)
  case Nil
  then show ?case by simp
next
  case (Cons op ops)
  have "sm_total_sessions_created m \<le> sm_total_sessions_created (registry_step op m)"
    by (rule total_created_step)
  also have "\<dots> \<le> sm_total_sessions_created (fold registry_step ops (registry_step op m))"
    by (rule Cons.IH)
  finally show ?case by simp
qed

lemma get_session_after_remove:
  "get_session sid (snd (remove_session sid now m)) = None"
proof (cases "map_of (sm_sessions m) sid")
  case None
  then show ?thesis
    by (simp add: remove_session_absent get_session_def)
next
  case (Some a)
  have "sid \<notin> fst ` set (filter (\<lambda>(k, b). k \<noteq> sid) (sm_sessions m))"
    by auto
  then show ?thesis
    by (simp add: get_session_def remove_session_present[OF Some] map_of_eq_None_iff)
qed

lemma create_session_keeps_objects:
  "take (length (sm_objects m)) (sm_objects (snd (create_session sid md clock m))) = sm_objects m"
  by (cases "map_of (sm_sessions m) sid") (simp_all add: create_session_new create_session_existing)


section \<open>Timestamps away from zero\<close>

text \<open>
  The derived durations are the differences in milliseconds whenever the timestamps they
  need are set and non-zero, and are absent when one is \<open>None\<close>; the event logged at
  the first TTS audio then carries \<open>target_met\<close>, true exactly when the latency is at
  most 2000 ms; and the average agrees with the specification's mean when no finalized
  turn has a latency of exactly zero.
\<close>

lemma stage_durations_nonzero:
  assumes "start_time s = Some a" and "a \<noteq> 0"
  shows "first_result_time s = Some b \<Longrightarrow> b \<noteq> 0 \<Longrightarrow> time_to_first_result s = Some ((b - a) * 1000)"
    and "end_time s = Some e \<Longrightarrow> e \<noteq> 0 \<Longrightarrow> total_duration s = Some ((e - a) * 1000)"
  using assms by (simp_all add: time_to_first_result_def total_duration_def truthy_def)

lemma stage_durations_unset:
  "start_time s = None \<or> first_result_time s = None \<Longrightarrow> time_to_first_result s = None"
  "start_time s = None \<or> end_time s = None \<Longrightarrow> total_duration s = None"
  by (auto simp: time_to_first_result_def total_duration_def truthy_def)

lemma stage_durations_example:
  "t0 \<noteq> 0 \<Longrightarrow> t0 + 0.15 \<noteq> 0 \<Longrightarrow> t0 + 0.5 \<noteq> 0 \<Longrightarrow>
   time_to_first_result \<lparr>stage = n, start_time = Some t0, first_result_time = Some (t0 + 0.15),
                          end_time = Some (t0 + 0.5)\<rparr> = Some 150 \<and>
   total_duration \<lparr>stage = n, start_time = Some t0, first_result_time = Some (t0 + 0.15),
                    end_time = Some (t0 + 0.5)\<rparr> = Some 500"
  by (simp add: time_to_first_result_def total_duration_def truthy_def)

lemma end_to_end_latency_nonzero:
  "start_time (stt t) = Some a \<Longrightarrow> a \<noteq> 0 \<Longrightarrow> first_result_time (tts t) = Some b \<Longrightarrow> b \<noteq> 0 \<Longrightarrow>
   end_to_end_latency t = Some ((b - a) * 1000)"
  by (simp add: end_to_end_latency_def truthy_def)

lemma tts_first_audio_target_met:
  assumes "l_current_turn tr < length (l_objects tr)"
    and "start_time (stt (lat_current tr)) = Some a" and "a \<noteq> 0" and "now \<noteq> 0" and "now \<noteq> a"
  shows "end_to_end_latency (lat_current (tts_first_audio now tr)) = Some ((now - a) * 1000)"
    and "last (l_log (tts_first_audio now tr)) =
           LogEvent ''info'' ''end_to_end_latency''
             [(''session_id'', PyStr (l_session_id tr)),
              (''turn_id'', PyInt (tl_turn_id (lat_current tr))),
              (''latency_ms'', PyFloat (py_round ((now - a) * 1000) 2)),
              (''target_met'', PyBool ((now - a) * 1000 \<le> 2000))]"
proof -
  let ?u = "lat_update_current (\<lambda>t. t\<lparr>tts := (tts t)\<lparr>first_result_time := Some now\<rparr>\<rparr>) tr"
  have cur: "lat_current ?u = (lat_current tr)\<lparr>tts := (tts (lat_current tr))\<lparr>first_result_time := Some now\<rparr>\<rparr>"
    using assms(1) by (rule lat_update_current_current)
  have e2e: "end_to_end_latency (lat_current ?u) = Some ((now - a) * 1000)"
    using assms(2-4) by (simp add: cur end_to_end_latency_def truthy_def)
  have t: "truthy (end_to_end_latency (lat_current ?u))"
    using assms(5) by (simp add: e2e truthy_def)
  show "end_to_end_latency (lat_current (tts_first_audio now tr)) = Some ((now - a) * 1000)"
    using e2e t by (simp add: tts_first_audio_def Let_def)
  show "last (l_log (tts_first_audio now tr)) =
           LogEvent ''info'' ''end_to_end_latency''
             [(''session_id'', PyStr (l_session_id tr)),
              (''turn_id'', PyInt (tl_turn_id (lat_current tr))),
              (''latency_ms'', PyFloat (py_round ((now - a) * 1000) 2)),
              (''target_met'', PyBool ((now - a) * 1000 \<le> 2000))]"
    using e2e t by (simp add: tts_first_audio_def Let_def logger_info_def cur)
qed

lemma target_met_examples:
  "last (l_log (lat_run [StartStt 10, TtsFirstAudio 11.8] (LatencyTracker_init ''s1'' 0))) =
     LogEvent ''info'' ''end_to_end_latency''
       [(''session_id'', PyStr ''s1''), (''turn_id'', PyInt 0),
        (''latency_ms'', PyFloat 1800), (''target_met'', PyBool True)]"
  "last (l_log (lat_run [StartStt 10, TtsFirstAudio 12.1] (LatencyTracker_init ''s1'' 0))) =
     LogEvent ''info'' ''end_to_end_latency''
       [(''session_id'', PyStr ''s1''), (''turn_id'', PyInt 0),
        (''latency_ms'', PyFloat 2100), (''target_met'', PyBool False)]"
  by (simp_all add: lat_defs Let_def py_round_def round_half_even_def)

lemma average_matches_spec_without_zero:
  assumes "\<forall>t \<in> set (lat_history tr). end_to_end_latency t \<noteq> Some 0"
  shows "average_end_to_end_latency tr = spec_average_end_to_end_latency tr"
proof -
  have "truthy (end_to_end_latency t) = (end_to_end_latency t \<noteq> None)"
    if "t \<in> set (lat_history tr)" for t
    using that assms by (cases "end_to_end_latency t") (auto simp: truthy_def)
  then have "filter (\<lambda>t. truthy (end_to_end_latency t)) (lat_history tr)
           = filter (\<lambda>t. end_to_end_latency t \<noteq> None) (lat_history tr)"
    by (intro filter_cong) simp_all
  then show ?thesis
    by (simp add: average_end_to_end_latency_def spec_average_end_to_end_latency_def)
qed


section \<open>The claims\<close>

subsection \<open>Cost accounting\<close>

text \<open>
  C1, as the code has it: \<open>average_cost_per_turn\<close> is zero on an empty history, and
  otherwise divides \<open>total_cost\<close> by the number of history entries, where
  \<open>total_cost\<close> is the sum of the totals of the finalized turns plus the total
  accumulated so far on the still-open turn.
\<close>

theorem average_cost_includes_open_turn:
  "average_cost_per_turn tr =
     (if c_turns tr = [] then 0
      else (sum_list (map turn_total (cost_history tr)) + turn_total (cost_current tr))
             / real (length (c_turns tr)))"
  by (simp add: average_cost_per_turn_def total_cost_def total_stt_cost_def total_llm_cost_def
      total_tts_cost_def turn_total_def[abs_def] sum_list_addf)

text \<open>
  C1, as stated, fails: after one finalized turn of 60 seconds of audio and another 60
  seconds on the open turn, the average is 0.004, while the history alone gives 0.002.
\<close>

theorem average_cost_history_only_counterexample:
  "average_cost_per_turn open_cost_example = 0.004 \<and>
   spec_history_average open_cost_example = 0.002 \<and>
   average_cost_per_turn open_cost_example \<noteq> spec_history_average open_cost_example"
  by (simp add: open_cost_example_def cost_defs spec_history_average_def)

text \<open>
  C7: the pricing scenario. From a fresh tracker, 30 seconds of audio make
  \<open>stt_cost\<close> 0.001, 100 input and 50 output tokens make \<open>llm_cost\<close> 0.0000985, 200
  characters make \<open>tts_cost\<close> 0.048; the turn returned by \<open>finish_turn\<close> has total
  0.0490985, the history then has one entry and the new open turn has id 1. (Exact
  values: the model computes in the reals.)
\<close>

theorem pricing_scenario:
  "stt_cost (cost_current (add_stt_cost 30 (CostTracker_init ''s1'' t0))) = 0.001 \<and>
   llm_cost (cost_current (add_llm_cost 100 50 (add_stt_cost 30 (CostTracker_init ''s1'' t0)))) = 0.0000985 \<and>
   tts_cost (cost_current
      (add_tts_cost 200 (add_llm_cost 100 50 (add_stt_cost 30 (CostTracker_init ''s1'' t0))))) = 0.048 \<and>
   (let res = cost_finish_turn t1
                (add_tts_cost 200 (add_llm_cost 100 50 (add_stt_cost 30 (CostTracker_init ''s1'' t0))))
    in turn_total (c_objects (snd res) ! fst res) = 0.0490985 \<and>
       length (c_turns (snd res)) = 1 \<and>
       tc_turn_id (cost_current (snd res)) = 1)"
  by (simp add: cost_defs Let_def)

subsection \<open>Finishing turns\<close>

text \<open>
  C3: calling \<open>finish_turn\<close> N times on a fresh cost tracker or latency tracker (N the
  length of the list of clock readings) leaves a history of N entries with turn ids
  \<open>0, ..., N-1\<close> and an open turn with id N. In every state reached from a fresh
  tracker, a call appends exactly one entry, the reference it returns is the turn that
  was open (for the latency tracker with \<open>turn_end_time\<close> set), and no later sequence
  of tracker operations changes the object behind that reference.
\<close>

theorem finish_turn_n_times:
  "(let tr = cost_run (map FinishCost ts) (CostTracker_init sid t0) in
      length (c_turns tr) = length ts \<and>
      map tc_turn_id (cost_history tr) = map int [0..<length ts] \<and>
      tc_turn_id (cost_current tr) = int (length ts)) \<and>
   (let tr = cost_run ops (CostTracker_init sid t0); res = cost_finish_turn now tr in
      fst res = c_current_turn tr \<and>
      c_turns (snd res) = c_turns tr @ [fst res] \<and>
      c_objects (snd res) ! fst res = cost_current tr \<and>
      (\<forall>later. c_objects (cost_run later (snd res)) ! fst res = cost_current tr)) \<and>
   (let tr = lat_run (map (\<lambda>(t_end, t_new). FinishLat t_end t_new) us) (LatencyTracker_init sid t0) in
      length (l_turns tr) = length us \<and>
      map tl_turn_id (lat_history tr) = map int [0..<length us] \<and>
      tl_turn_id (lat_current tr) = int (length us)) \<and>
   (let tr = lat_run lops (LatencyTracker_init sid t0); res = lat_finish_turn t_end t_new tr in
      fst res = l_current_turn tr \<and>
      l_turns (snd res) = l_turns tr @ [fst res] \<and>
      l_objects (snd res) ! fst res = (lat_current tr)\<lparr>turn_end_time := Some t_end\<rparr> \<and>
      (\<forall>later. l_objects (lat_run later (snd res)) ! fst res
                  = (lat_current tr)\<lparr>turn_end_time := Some t_end\<rparr>))"
proof -
  let ?c0 = "CostTracker_init sid t0" and ?l0 = "LatencyTracker_init sid t0"
  have c_len: "length (c_turns (cost_run (map FinishCost ts) ?c0)) = length ts"
    by (simp add: cost_run_finishes_length CostTracker_init_def)
  have c_ids: "map tc_turn_id (cost_history (cost_run (map FinishCost ts) ?c0)) = map int [0..<length ts]
      \<and> tc_turn_id (cost_current (cost_run (map FinishCost ts) ?c0)) = int (length ts)"
    using cost_inv_run[OF cost_inv_init, of "map FinishCost ts" sid t0] c_len
    by (simp add: cost_inv_def)
  let ?tr = "cost_run ops ?c0"
  let ?res = "cost_finish_turn now ?tr"
  have c_inv: "cost_inv ?tr"
    by (rule cost_inv_run[OF cost_inv_init])
  have c_ret: "c_objects (snd ?res) ! fst ?res = cost_current ?tr"
    using c_inv by (simp add: cost_inv_def cost_current_def nth_append)
  have c_stable: "c_objects (cost_run later (snd ?res)) ! fst ?res = cost_current ?tr" for later
    using cost_run_history_stable[OF cost_inv_finish[OF c_inv], of "fst ?res" now later] c_ret
    by simp
  let ?us = "map (\<lambda>(t_end, t_new). FinishLat t_end t_new) us"
  have l_len: "length (l_turns (lat_run ?us ?l0)) = length us"
    by (simp add: lat_run_finishes_length LatencyTracker_init_def)
  have l_ids: "map tl_turn_id (lat_history (lat_run ?us ?l0)) = map int [0..<length us]
      \<and> tl_turn_id (lat_current (lat_run ?us ?l0)) = int (length us)"
    using lat_inv_run[OF lat_inv_init, of ?us sid t0] l_len
    by (simp add: lat_inv_def)
  let ?lt = "lat_run lops ?l0"
  let ?lres = "lat_finish_turn t_end t_new ?lt"
  have l_inv: "lat_inv ?lt"
    by (rule lat_inv_run[OF lat_inv_init])
  have l_ret: "l_objects (snd ?lres) ! fst ?lres = (lat_current ?lt)\<lparr>turn_end_time := Some t_end\<rparr>"
    using l_inv by (simp add: lat_inv_def lat_current_def nth_append lat_update_current_def)
  have l_stable: "l_objects (lat_run later (snd ?lres)) ! fst ?lres
      = (lat_current ?lt)\<lparr>turn_end_time := Some t_end\<rparr>" for later
    using lat_run_history_stable[OF lat_inv_finish[OF l_inv], of "fst ?lres" t_end t_new later] l_ret
    by simp
  show ?thesis
    using c_len c_ids c_ret c_stable l_len l_ids l_ret l_stable
    by (simp add: Let_def)
qed

subsection \<open>Stage timing and end-to-end latency\<close>

text \<open>
  C4 at a start timestamp of 0: with start 0, first result 0.15 and end 0.5 all set,
  both \<open>time_to_first_result\<close> and \<open>total_duration\<close> return \<open>None\<close>, where the claim
  expects 150 and 500.
\<close>

theorem zero_start_time_is_unset:
  "start_time zero_start_stage = Some 0 \<and>
   first_result_time zero_start_stage = Some 0.15 \<and>
   end_time zero_start_stage = Some 0.5 \<and>
   time_to_first_result zero_start_stage = None \<and>
   total_duration zero_start_stage = None"
  by (simp add: zero_start_stage_def time_to_first_result_def total_duration_def truthy_def)

text \<open>
  C5 at an stt start timestamp of 0: after \<open>start_stt\<close> at 0 and \<open>tts_first_audio\<close>
  at 1.8 both timestamps are set, yet \<open>end_to_end_latency\<close> is \<open>None\<close> and no
  \<open>end_to_end_latency\<close> event (the one carrying \<open>target_met\<close>) is logged, where the
  claim expects 1800 ms and \<open>target_met\<close> true.
\<close>

theorem zero_stt_start_no_end_to_end:
  "start_time (stt (lat_current zero_start_turn)) = Some 0 \<and>
   first_result_time (tts (lat_current zero_start_turn)) = Some 1.8 \<and>
   end_to_end_latency (lat_current zero_start_turn) = None \<and>
   map event_name (l_log zero_start_turn) = [''stt_started'', ''tts_first_audio'']"
  by (simp add: zero_start_turn_def lat_defs Let_def)

text \<open>
  C6 at a turn whose end-to-end latency is defined and zero: with a history of two
  turns of latency 0 and 1000 ms, \<open>average_end_to_end_latency\<close> is 1000, where the
  mean over the entries with a defined value is 500.
\<close>

theorem zero_latency_turn_skipped:
  "map end_to_end_latency (lat_history zero_latency_history) = [Some 0, Some 1000] \<and>
   average_end_to_end_latency zero_latency_history = Some 1000 \<and>
   spec_average_end_to_end_latency zero_latency_history = Some 500"
  by (simp add: zero_latency_history_def lat_defs Let_def spec_average_end_to_end_latency_def)

text \<open>
  C10: after \<open>end_tool\<close> the tool stage of the open turn has \<open>first_result_time\<close>
  equal to \<open>end_time\<close> (the clock reading of the call); and in every state reached
  from a fresh tracker, every turn, open or finalized, has the two equal for its tool
  stage, hence \<open>time_to_first_result\<close> equal to \<open>total_duration\<close>.
\<close>

theorem end_tool_first_result_is_end:
  "(let tr = end_tool now (lat_run ops (LatencyTracker_init sid t0)) in
      end_time (tool (lat_current tr)) = Some now \<and>
      first_result_time (tool (lat_current tr)) = end_time (tool (lat_current tr))) \<and>
   (\<forall>t \<in> set (lat_current (lat_run ops (LatencyTracker_init sid t0))
               # lat_history (lat_run ops (LatencyTracker_init sid t0))).
      first_result_time (tool t) = end_time (tool t) \<and>
      time_to_first_result (tool t) = total_duration (tool t))"
proof -
  let ?tr = "lat_run ops (LatencyTracker_init sid t0)"
  have inv: "lat_inv ?tr"
    by (rule lat_inv_run[OF lat_inv_init])
  have "tool_inv (LatencyTracker_init sid t0)"
    by (simp add: tool_inv_def LatencyTracker_init_def new_TurnLatency_def new_StageLatency_def)
  then have tinv: "tool_inv ?tr"
    by (rule tool_inv_run[OF lat_inv_init])
  have cur: "l_current_turn ?tr < length (l_objects ?tr)"
    using inv by (simp add: lat_inv_def)
  have first: "end_time (tool (lat_current (end_tool now ?tr))) = Some now \<and>
      first_result_time (tool (lat_current (end_tool now ?tr)))
        = end_time (tool (lat_current (end_tool now ?tr)))"
    using cur
    by (simp add: end_tool_def Let_def lat_update_current_twice lat_update_current_current)
  have mem: "set (lat_current ?tr # lat_history ?tr) \<subseteq> set (l_objects ?tr)"
    using inv by (auto simp: lat_inv_def lat_current_def lat_history_def)
  have "first_result_time (tool t) = end_time (tool t) \<and>
        time_to_first_result (tool t) = total_duration (tool t)"
    if "t \<in> set (lat_current ?tr # lat_history ?tr)" for t
  proof -
    have "first_result_time (tool t) = end_time (tool t)"
      using that mem tinv unfolding tool_inv_def by blast
    then show ?thesis
      by (simp add: time_to_first_result_def total_duration_def)
  qed
  then show ?thesis
    using first by (simp add: Let_def)
qed

text \<open>
  C10 at a concrete run: tool started at 1 and ended at 3.
\<close>

theorem end_tool_first_result_is_end_witness:
  "end_time (tool (lat_current tool_example)) = Some 3 \<and>
   first_result_time (tool (lat_current tool_example)) = Some 3 \<and>
   time_to_first_result (tool (lat_current tool_example)) = Some 2000 \<and>
   total_duration (tool (lat_current tool_example)) = Some 2000"
proof -
  have run: "tool_example = end_tool 3 (lat_run [StartTool 1] (LatencyTracker_init ''s1'' 0))"
    by (simp add: tool_example_def lat_run_def)
  have a: "end_time (tool (lat_current tool_example)) = Some 3 \<and>
      first_result_time (tool (lat_current tool_example)) = end_time (tool (lat_current tool_example))"
    using end_tool_first_result_is_end[of 3 "[StartTool 1]" "''s1''" 0]
    by (simp add: run Let_def)
  have b: "time_to_first_result (tool (lat_current tool_example))
      = total_duration (tool (lat_current tool_example))"
    using end_tool_first_result_is_end[of 3 "[StartTool 1, EndTool 3]" "''s1''" 0]
    by (simp add: tool_example_def)
  have dur: "total_duration (tool (lat_current tool_example)) = Some 2000"
    by (simp add: tool_example_def lat_defs Let_def)
  show ?thesis
    using a b dur by simp
qed

subsection \<open>The session registry\<close>

text \<open>
  C2 at the empty registry: \<open>get_aggregate_metrics\<close> returns \<open>active_sessions\<close> 0 and
  \<open>average_latency_ms\<close> \<open>None\<close>, but \<open>aggregate_cost\<close> is the bare float 0.0, which
  has no \<open>total\<close> field, and the keys \<open>total_turns\<close> and \<open>target_latency_ms\<close> are
  missing.
\<close>

theorem empty_registry_metrics:
  "get_aggregate_metrics SessionManager_init =
     PyDict [(''active_sessions'', PyInt 0), (''total_sessions_created'', PyInt 0),
             (''aggregate_cost'', PyFloat 0), (''average_latency_ms'', PyNone)] \<and>
   subscript (get_aggregate_metrics SessionManager_init) ''aggregate_cost'' = Some (PyFloat 0) \<and>
   subscript (PyFloat 0) ''total'' = None \<and>
   subscript (get_aggregate_metrics SessionManager_init) ''total_turns'' = None \<and>
   subscript (get_aggregate_metrics SessionManager_init) ''target_latency_ms'' = None"
  by (simp add: get_aggregate_metrics_def SessionManager_init_def)

text \<open>
  C8: the registry invariant (which includes that every session in the mapping is
  active) is preserved by every sequence of \<open>create_session\<close> and \<open>remove_session\<close>,
  and holds in every state reached from the empty registry. \<open>create_session\<close> leaves
  every existing session object as it was. \<open>remove_session\<close> either finds nothing and
  changes nothing, or in one step removes the mapping entry, clears \<open>is_active\<close> of
  exactly the removed session object, and returns the reference to it.
\<close>

theorem registry_sessions_active:
  assumes "registry_inv m"
  shows "registry_inv (registry_run ops m) \<and>
    (\<forall>s \<in> set (sessions_values (registry_run ops m)). is_active s) \<and>
    (\<forall>s \<in> set (sessions_values (registry_run ops SessionManager_init)). is_active s) \<and>
    take (length (sm_objects m)) (sm_objects (snd (create_session sid md clock m))) = sm_objects m \<and>
    (let res = remove_session rid now m; m' = snd res in
       case fst res of
         None \<Rightarrow> get_session rid m = None \<and> m' = m
       | Some a \<Rightarrow>
           get_session rid m = Some a \<and>
           get_session rid m' = None \<and>
           a \<notin> snd ` set (sm_sessions m') \<and>
           \<not> is_active (sm_objects m' ! a) \<and>
           sm_objects m' = (sm_objects m)[a := (sm_objects m ! a)\<lparr>is_active := False\<rparr>])"
proof -
  have run: "registry_inv (registry_run ops m)"
    using assms by (rule registry_inv_run)
  have act: "\<forall>s \<in> set (sessions_values (registry_run ops m)). is_active s"
    using run by (blast intro: registry_inv_values_active)
  have act0: "\<forall>s \<in> set (sessions_values (registry_run ops SessionManager_init)). is_active s"
    using registry_inv_run[OF registry_inv_init] by (blast intro: registry_inv_values_active)
  have rem: "(let res = remove_session rid now m; m' = snd res in
       case fst res of
         None \<Rightarrow> get_session rid m = None \<and> m' = m
       | Some a \<Rightarrow>
           get_session rid m = Some a \<and>
           get_session rid m' = None \<and>
           a \<notin> snd ` set (sm_sessions m') \<and>
           \<not> is_active (sm_objects m' ! a) \<and>
           sm_objects m' = (sm_objects m)[a := (sm_objects m ! a)\<lparr>is_active := False\<rparr>])"
  proof (cases "map_of (sm_sessions m) rid")
    case None
    then show ?thesis
      by (simp add: remove_session_absent get_session_def)
  next
    case (Some a)
    have "(rid, a) \<in> set (sm_sessions m)"
      using Some by (rule map_of_SomeD)
    then have "a < length (sm_objects m)"
      using assms unfolding registry_inv_def by force
    then show ?thesis
      using Some removed_addr_gone[OF assms Some] get_session_after_remove[of rid now m]
      by (simp add: Let_def remove_session_present[OF Some] get_session_def)
  qed
  show ?thesis
    using run act act0 rem create_session_keeps_objects by blast
qed

text \<open>
  C8 at a concrete registry: two sessions, of which the first is removed.
\<close>

theorem registry_sessions_active_witness:
  "registry_inv two_sessions \<and>
   registry_inv (registry_run [RemoveSession ''a'' 5] two_sessions) \<and>
   map is_active (sessions_values (registry_run [RemoveSession ''a'' 5] two_sessions)) = [True] \<and>
   fst (remove_session ''a'' 5 two_sessions) = Some 0 \<and>
   get_session ''a'' (snd (remove_session ''a'' 5 two_sessions)) = None \<and>
   \<not> is_active (sm_objects (snd (remove_session ''a'' 5 two_sessions)) ! 0)"
proof -
  have objs: "sm_sessions two_sessions = [(''a'', 0), (''b'', 1)]"
    "length (sm_objects two_sessions) = 2"
    "is_active (sm_objects two_sessions ! 0)" "is_active (sm_objects two_sessions ! Suc 0)"
    by (simp_all add: two_sessions_def registry_run_def create_session_def SessionManager_init_def
        sm_logger_def Let_def)
  have h: "registry_inv two_sessions"
    by (simp add: registry_inv_def objs)
  have r: "fst (remove_session ''a'' 5 two_sessions) = Some 0"
    by (simp add: remove_session_def objs Let_def)
  have v: "sessions_values (registry_run [RemoveSession ''a'' 5] two_sessions)
             = [sm_objects two_sessions ! Suc 0]"
    by (simp add: sessions_values_def registry_run_def remove_session_def objs Let_def sm_logger_def)
  show ?thesis
    using registry_sessions_active[OF h, of "[RemoveSession ''a'' 5]" "''c''" None "(3, 3, 3)" "''a''" 5]
      h r v objs
    by (simp add: Let_def)
qed

text \<open>
  C9: \<open>create_session\<close> with an id already present returns the existing session, which
  is active, and changes neither the session objects, nor the mapping, nor the counter;
  with a new id it constructs and inserts a new session and increments the counter by
  one. \<open>remove_session\<close> leaves the counter as it is, and over every sequence of
  operations the counter never decreases. (The model of \<open>create_session\<close> has no error
  result: the source has no \<open>raise\<close> on either path.)
\<close>

theorem create_session_idempotent_counter:
  assumes "registry_inv m"
  shows "(let res = create_session sid md clock m; m' = snd res in
       case get_session sid m of
         Some existing \<Rightarrow>
           fst res = existing \<and> is_active (sm_objects m' ! existing) \<and>
           sm_objects m' = sm_objects m \<and> sm_sessions m' = sm_sessions m \<and>
           total_sessions_created m' = total_sessions_created m
       | None \<Rightarrow>
           fst res = length (sm_objects m) \<and>
           sm_objects m' = sm_objects m @ [new_Session sid (case md of None \<Rightarrow> [] | Some d \<Rightarrow> d) clock] \<and>
           sm_sessions m' = sm_sessions m @ [(sid, fst res)] \<and>
           total_sessions_created m' = total_sessions_created m + 1) \<and>
    total_sessions_created (snd (remove_session rid now m)) = total_sessions_created m \<and>
    total_sessions_created m \<le> total_sessions_created (registry_run ops m)"
proof -
  have cr: "(let res = create_session sid md clock m; m' = snd res in
       case get_session sid m of
         Some existing \<Rightarrow>
           fst res = existing \<and> is_active (sm_objects m' ! existing) \<and>
           sm_objects m' = sm_objects m \<and> sm_sessions m' = sm_sessions m \<and>
           total_sessions_created m' = total_sessions_created m
       | None \<Rightarrow>
           fst res = length (sm_objects m) \<and>
           sm_objects m' = sm_objects m @ [new_Session sid (case md of None \<Rightarrow> [] | Some d \<Rightarrow> d) clock] \<and>
           sm_sessions m' = sm_sessions m @ [(sid, fst res)] \<and>
           total_sessions_created m' = total_sessions_created m + 1)"
  proof (cases "map_of (sm_sessions m) sid")
    case None
    then show ?thesis
      by (simp add: Let_def get_session_def create_session_new total_sessions_created_def)
  next
    case (Some a)
    have "(sid, a) \<in> set (sm_sessions m)"
      using Some by (rule map_of_SomeD)
    then have "is_active (sm_objects m ! a)"
      using assms unfolding registry_inv_def by force
    then show ?thesis
      using Some
      by (simp add: Let_def get_session_def create_session_existing total_sessions_created_def)
  qed
  have rm: "total_sessions_created (snd (remove_session rid now m)) = total_sessions_created m"
    by (cases "map_of (sm_sessions m) rid")
       (simp_all add: remove_session_absent remove_session_present total_sessions_created_def)
  have mono: "total_sessions_created m \<le> total_sessions_created (registry_run ops m)"
    by (simp add: total_sessions_created_def total_created_run)
  show ?thesis
    using cr rm mono by blast
qed

text \<open>
  C9 at a concrete registry: a duplicate create, a removal, and a re-creation.
\<close>

theorem create_session_idempotent_counter_witness:
  "registry_inv two_sessions \<and>
   get_session ''a'' two_sessions = Some 0 \<and>
   fst (create_session ''a'' None (3, 3, 3) two_sessions) = 0 \<and>
   total_sessions_created two_sessions = 2 \<and>
   total_sessions_created (snd (create_session ''a'' None (3, 3, 3) two_sessions)) = 2 \<and>
   total_sessions_created (snd (remove_session ''a'' 4 two_sessions)) = 2 \<and>
   2 \<le> total_sessions_created
          (registry_run [RemoveSession ''a'' 4, CreateSession ''a'' None (5, 5, 5)] two_sessions)"
proof -
  have objs: "sm_sessions two_sessions = [(''a'', 0), (''b'', 1)]"
    "length (sm_objects two_sessions) = 2"
    "is_active (sm_objects two_sessions ! 0)" "is_active (sm_objects two_sessions ! Suc 0)"
    "sm_total_sessions_created two_sessions = 2"
    by (simp_all add: two_sessions_def registry_run_def create_session_def SessionManager_init_def
        sm_logger_def Let_def)
  have h: "registry_inv two_sessions"
    by (simp add: registry_inv_def objs)
  have g: "get_session ''a'' two_sessions = Some 0"
    by (simp add: get_session_def objs)
  show ?thesis
    using create_session_idempotent_counter[OF h, of "''a''" None "(3, 3, 3)" "''a''" 4
        "[RemoveSession ''a'' 4, CreateSession ''a'' None (5, 5, 5)]"] h g objs
    by (simp add: Let_def total_sessions_created_def)
qed

end
